theory Spec2Isabelle
  imports Complex_Main "HOL-Library.AList" "HOL-Library.Multiset" "HOL-Library.Sublist"
begin

section \<open>Data model\<close>

text \<open>
  The three tables of \<^verbatim>\<open>app/utils.py\<close>, one record per row, a table being the list of
  its rows in file order. Column names are the source's; the Sales and History columns
  carry a prefix because several tables share column names.

  Typing of the cells: \<^verbatim>\<open>SKU\<close>, \<^verbatim>\<open>Stock\<close>, \<^verbatim>\<open>Umbral\<close>, \<^verbatim>\<open>Unidades_Vendidas\<close> and
  \<^verbatim>\<open>Reposicion\<close> are integer (\<^verbatim>\<open>int64\<close>) columns, prices are exact rationals, and every
  \<^verbatim>\<open>Fecha\<close> cell holds a date that \<^verbatim>\<open>pd.to_datetime\<close> parsed (no missing cell).
\<close>

text \<open>A pandas \<^verbatim>\<open>Timestamp\<close>: nanoseconds since 1970-01-01T00:00.\<close>

type_synonym timestamp = int

record stock_row =
  SKU :: int
  Producto :: string
  Categoria :: string
  Talla :: string
  Color :: string
  Stock :: int
  Precio_Unitario :: rat
  Umbral :: int

record venta_row =
  v_Fecha :: timestamp
  v_SKU :: int
  v_Unidades_Vendidas :: int

record historico_row =
  h_Fecha :: timestamp
  h_SKU :: int
  h_Stock :: int
  h_Unidades_Vendidas :: int
  h_Reposicion :: int
  h_Precio_Unitario :: rat
  h_Ingresos_Brutos :: rat

text \<open>The exceptions the analytics functions can raise.\<close>

datatype error = IndexError | ZeroDivisionError

text \<open>
  A Python float as far as the functions below need it: a number or \<^verbatim>\<open>nan\<close>. Numbers
  are exact rationals; the binary representation error of IEEE doubles is not modelled.
\<close>

datatype pyfloat = Num rat | NaN

section \<open>Library behaviour: dates, strings, rounding\<close>

definition ns_per_day :: int where
  "ns_per_day = 86400000000000"

text \<open>\<^verbatim>\<open>Timedelta.days\<close>: whole days of a difference of timestamps, rounded down.\<close>

definition delta_days :: "int \<Rightarrow> int" where
  "delta_days d = d div ns_per_day"

text \<open>
  The proleptic Gregorian date (year, month, day) of a day number counted from
  1970-01-01, by the usual era / day-of-era computation.
\<close>

definition civil_from_days :: "int \<Rightarrow> int \<times> int \<times> int" where
  "civil_from_days z0 =
     (let z = z0 + 719468;
          era = z div 146097;
          doe = z - era * 146097;
          yoe = (doe - doe div 1460 + doe div 36524 - doe div 146096) div 365;
          y = yoe + era * 400;
          doy = doe - (365 * yoe + yoe div 4 - yoe div 100);
          mp = (5 * doy + 2) div 153;
          d = doy - (153 * mp + 2) div 5 + 1;
          m = (if mp < 10 then mp + 3 else mp - 9)
      in (if m \<le> 2 then y + 1 else y, m, d))"

text \<open>\<^verbatim>\<open>Timestamp.date()\<close>, \<^verbatim>\<open>.year\<close> and \<^verbatim>\<open>.month\<close>.\<close>

definition date_of :: "timestamp \<Rightarrow> int \<times> int \<times> int" where
  "date_of t = civil_from_days (t div ns_per_day)"

definition year_of :: "timestamp \<Rightarrow> int" where
  "year_of t = fst (date_of t)"

definition month_of :: "timestamp \<Rightarrow> int" where
  "month_of t = fst (snd (date_of t))"

text \<open>Decimal digits of a natural number, and \<^verbatim>\<open>str\<close> of a Python int.\<close>

definition digit_char :: "nat \<Rightarrow> char" where
  "digit_char d = char_of (48 + d)"

fun str_nat :: "nat \<Rightarrow> string" where
  "str_nat n = (if n < 10 then [digit_char n] else str_nat (n div 10) @ [digit_char (n mod 10)])"

declare str_nat.simps [simp del]

definition str_int :: "int \<Rightarrow> string" where
  "str_int i = (if i < 0 then CHR ''-'' # str_nat (nat (- i)) else str_nat (nat i))"

text \<open>The number a string of decimal digits denotes.\<close>

definition nat_of_str :: "string \<Rightarrow> nat" where
  "nat_of_str s = foldl (\<lambda>a c. 10 * a + (of_char c - 48)) 0 s"

definition zero_pad :: "nat \<Rightarrow> string \<Rightarrow> string" where
  "zero_pad k s = replicate (k - length s) CHR ''0'' @ s"

text \<open>\<^verbatim>\<open>str\<close> of a \<^verbatim>\<open>datetime.date\<close>: \<^verbatim>\<open>YYYY-MM-DD\<close>.\<close>

definition str_date :: "int \<times> int \<times> int \<Rightarrow> string" where
  "str_date ymd =
     (case ymd of (y, m, d) \<Rightarrow>
        zero_pad 4 (str_int y) @ ''-'' @ zero_pad 2 (str_int m) @ ''-'' @ zero_pad 2 (str_int d))"

text \<open>
  \<^verbatim>\<open>round(x, 2)\<close> on the exact value: the nearest multiple of 1/100, a tie going to the
  even one. On doubles the library rounds the binary value, which can fall on the other
  side of a decimal tie (\<^verbatim>\<open>round(1/40, 2)\<close> is 0.03). Only the velocity mappings use this
  exact rounding, and no theorem below states a rounded value of theirs.
\<close>

definition round_half_even :: "rat \<Rightarrow> int" where
  "round_half_even q =
     (let f = \<lfloor>q\<rfloor>; r = q - of_int f
      in if r < 1 / 2 then f
         else if 1 / 2 < r then f + 1
         else if even f then f else f + 1)"

definition round2 :: "rat \<Rightarrow> rat" where
  "round2 q = of_int (round_half_even (q * 100)) / 100"

section \<open>Low-stock detection\<close>

text \<open>
  \<^verbatim>\<open>productos_bajo_stock\<close>: the boolean mask \<^verbatim>\<open>Stock <= Umbral\<close> selects rows, and
  \<^verbatim>\<open>to_dict(orient='records')\<close> lists them, each as the mapping of all its columns, which
  the record itself stands for.
\<close>

definition productos_bajo_stock :: "stock_row list \<Rightarrow> stock_row list" where
  "productos_bajo_stock stock_df = filter (\<lambda>r. Stock r \<le> Umbral r) stock_df"

section \<open>Event extraction\<close>

record evento =
  tipo :: string
  e_SKU :: int
  fecha :: string

definition rotura_de :: "historico_row \<Rightarrow> evento" where
  "rotura_de row = \<lparr>tipo = ''rotura_stock'', e_SKU = h_SKU row, fecha = str_date (date_of (h_Fecha row))\<rparr>"

definition reposicion_de :: "historico_row \<Rightarrow> evento" where
  "reposicion_de row = \<lparr>tipo = ''reposicion'', e_SKU = h_SKU row, fecha = str_date (date_of (h_Fecha row))\<rparr>"

text \<open>
  \<^verbatim>\<open>eventos_detectados\<close>: the loop over \<^verbatim>\<open>iterrows()\<close> with the list \<^verbatim>\<open>eventos\<close> as its
  state; each row appends by its two independent \<^verbatim>\<open>if\<close>s, in the order they are written.
\<close>

definition eventos_paso :: "evento list \<Rightarrow> historico_row \<Rightarrow> evento list" where
  "eventos_paso eventos row =
     (let eventos1 = (if h_Stock row = 0 then eventos @ [rotura_de row] else eventos)
      in (if h_Reposicion row = 1 then eventos1 @ [reposicion_de row] else eventos1))"

definition eventos_detectados :: "historico_row list \<Rightarrow> evento list" where
  "eventos_detectados historico_df = foldl eventos_paso [] historico_df"

section \<open>Library behaviour: columns, grouping, ranking, lookup\<close>

text \<open>
  \<^verbatim>\<open>max()\<close> and \<^verbatim>\<open>min()\<close> of a datetime column: \<^verbatim>\<open>NaT\<close> on an empty column, here
  \<open>None\<close>.
\<close>

definition col_max :: "timestamp list \<Rightarrow> timestamp option" where
  "col_max xs = (if xs = [] then None else Some (Max (set xs)))"

definition col_min :: "timestamp list \<Rightarrow> timestamp option" where
  "col_min xs = (if xs = [] then None else Some (Min (set xs)))"

text \<open>
  \<^verbatim>\<open>(ventas_df['Fecha'].max() - ventas_df['Fecha'].min()).days + 1\<close>. On an empty table both
  ends are \<^verbatim>\<open>NaT\<close>, their difference is \<^verbatim>\<open>NaT\<close>, whose \<^verbatim>\<open>.days\<close> is \<^verbatim>\<open>nan\<close>, and
  \<^verbatim>\<open>nan + 1\<close> is \<^verbatim>\<open>nan\<close>: \<open>None\<close> stands for that \<^verbatim>\<open>nan\<close>, \<open>Some d\<close> for the int \<open>d\<close>.
\<close>

definition dias_ventas :: "venta_row list \<Rightarrow> int option" where
  "dias_ventas ventas_df =
     (case (col_max (map v_Fecha ventas_df), col_min (map v_Fecha ventas_df)) of
        (Some fmax, Some fmin) \<Rightarrow> Some (delta_days (fmax - fmin) + 1)
      | _ \<Rightarrow> None)"

text \<open>Truth value of \<^verbatim>\<open>dias\<close> in a condition: \<^verbatim>\<open>nan\<close> is true, an int is true unless 0.\<close>

definition truthy :: "int option \<Rightarrow> bool" where
  "truthy dias = (case dias of None \<Rightarrow> True | Some d \<Rightarrow> d \<noteq> 0)"

text \<open>
  Division \<^verbatim>\<open>/\<close>. Dividing by zero is an error value (Python ints raise
  \<^verbatim>\<open>ZeroDivisionError\<close>; numpy scalars would give \<^verbatim>\<open>inf\<close> or \<^verbatim>\<open>nan\<close> with a warning), so
  that a guard which fails to exclude a zero divisor shows in the result. Dividing by
  \<^verbatim>\<open>nan\<close> gives \<^verbatim>\<open>nan\<close>.
\<close>

definition py_truediv :: "int \<Rightarrow> int option \<Rightarrow> error + pyfloat" where
  "py_truediv x y =
     (case y of
        None \<Rightarrow> Inr NaN
      | Some d \<Rightarrow> if d = 0 then Inl ZeroDivisionError else Inr (Num (of_int x / of_int d)))"

text \<open>
  \<^verbatim>\<open>round(x, 2)\<close>, \<^verbatim>\<open>u * x\<close> and \<^verbatim>\<open>x < y\<close> on floats; every comparison with \<^verbatim>\<open>nan\<close> is
  false. Quotients and products are exact here, where doubles are rounded: the product
  with the default threshold 0.5 is exact on doubles too, while with another threshold
  the double comparison can differ from the exact one where both sides are equal or
  nearly so. The theorems below give the outcome of a comparison only for the default
  threshold, or where both sides are 0 (as they are on doubles then).
\<close>

fun fl_round2 :: "pyfloat \<Rightarrow> pyfloat" where
  "fl_round2 (Num q) = Num (round2 q)"
| "fl_round2 NaN = NaN"



text \<open>
  \<^verbatim>\<open>sum()\<close> of an integer column: the column is \<^verbatim>\<open>int64\<close> and the sum is taken in
  \<^verbatim>\<open>int64\<close>, wrapping around silently on overflow.
\<close>

definition wrap_int64 :: "int \<Rightarrow> int" where
  "wrap_int64 i = (i + 2 ^ 63) mod 2 ^ 64 - 2 ^ 63"

definition suma_int64 :: "int list \<Rightarrow> int" where
  "suma_int64 xs = wrap_int64 (sum_list xs)"

text \<open>
  \<^verbatim>\<open>df.groupby('SKU')['Unidades_Vendidas'].sum()\<close>: one entry per distinct SKU, in
  ascending SKU order (\<^verbatim>\<open>groupby\<close> sorts its keys), holding the sum of the units of that
  SKU's rows. A Series is the list of its (index, value) pairs.
\<close>

definition groupby_sum :: "venta_row list \<Rightarrow> (int \<times> int) list" where
  "groupby_sum df =
     map (\<lambda>sku. (sku, suma_int64 (map v_Unidades_Vendidas (filter (\<lambda>v. v_SKU v = sku) df))))
       (sort (remdups (map v_SKU df)))"

text \<open>\<^verbatim>\<open>Series.get(key, default)\<close>.\<close>

definition series_get :: "(int \<times> int) list \<Rightarrow> int \<Rightarrow> int \<Rightarrow> int" where
  "series_get series key dflt = (case map_of series key of None \<Rightarrow> dflt | Some v \<Rightarrow> v)"

text \<open>
  \<^verbatim>\<open>sort_values(ascending=False)\<close>. The source calls it with the default sort kind
  (quicksort), which is not stable: the result has the entries of the Series in
  descending order of their values, and the order among entries of equal value is the
  library's own, varying with its version and the size of the Series. The sort is
  therefore a parameter \<open>sv\<close> of the functions that rank, and all that is known of it is
  that it is a descending sort.
\<close>

definition es_sort_values_desc :: "((int \<times> int) list \<Rightarrow> (int \<times> int) list) \<Rightarrow> bool" where
  "es_sort_values_desc sv =
     (\<forall>series. mset (sv series) = mset series
               \<and> sorted_wrt (\<lambda>a b. snd b \<le> snd a) (sv series))"

text \<open>
  One descending sort, for the examples: the stable ascending sort, reversed, which puts
  entries of equal value in reverse index order.
\<close>

definition sort_values_inverso :: "(int \<times> int) list \<Rightarrow> (int \<times> int) list" where
  "sort_values_inverso series = rev (sort_key snd series)"

text \<open>
  \<^verbatim>\<open>head(n)\<close> is \<^verbatim>\<open>iloc[:n]\<close>: the first \<open>n\<close> entries, and for a negative \<open>n\<close> all
  entries but the last \<open>-n\<close>.
\<close>

definition head :: "int \<Rightarrow> 'a list \<Rightarrow> 'a list" where
  "head n xs = (if 0 \<le> n then take (nat n) xs else take (length xs - nat (- n)) xs)"

text \<open>
  \<^verbatim>\<open>stock_df[stock_df['SKU'] == sku].iloc[0].to_dict()\<close>: the first Stock row of that SKU;
  \<^verbatim>\<open>iloc[0]\<close> on an empty selection raises \<^verbatim>\<open>IndexError\<close>.
\<close>

definition stock_lookup :: "stock_row list \<Rightarrow> int \<Rightarrow> error + stock_row" where
  "stock_lookup stock_df sku =
     (case filter (\<lambda>r. SKU r = sku) stock_df of
        [] \<Rightarrow> Inl IndexError
      | producto # _ \<Rightarrow> Inr producto)"

section \<open>Slow-rotation detection\<close>






section \<open>Dead-stock detection\<close>





section \<open>Top sellers\<close>

text \<open>
  The loop of \<^verbatim>\<open>top_n_vendidos_mes\<close> over \<^verbatim>\<open>ranking.items()\<close>; a result row is the Stock
  record with the key \<^verbatim>\<open>total_vendido_mes\<close> added: the pair of both.
\<close>

fun top_n_loop ::
  "stock_row list \<Rightarrow> (int \<times> int) list \<Rightarrow> (stock_row \<times> int) list \<Rightarrow>
   error + (stock_row \<times> int) list" where
  "top_n_loop stock_df [] res = Inr res"
| "top_n_loop stock_df ((sku, total_sku) # rest) res =
     (case stock_lookup stock_df sku of
        Inl e \<Rightarrow> Inl e
      | Inr producto \<Rightarrow> top_n_loop stock_df rest (res @ [(producto, total_sku)]))"

text \<open>
  The rows of the month and year of the latest sale. (A \<^verbatim>\<open>NaT\<close> maximum has month and
  year \<^verbatim>\<open>nan\<close>, equal to no row's.)
\<close>

definition mes_df_de :: "venta_row list \<Rightarrow> venta_row list" where
  "mes_df_de ventas_df =
     (case col_max (map v_Fecha ventas_df) of
        None \<Rightarrow> []
      | Some fecha_max \<Rightarrow>
          filter (\<lambda>v. month_of (v_Fecha v) = month_of fecha_max
                     \<and> year_of (v_Fecha v) = year_of fecha_max) ventas_df)"

definition ranking_mes ::
  "((int \<times> int) list \<Rightarrow> (int \<times> int) list) \<Rightarrow> venta_row list \<Rightarrow> int \<Rightarrow> (int \<times> int) list" where
  "ranking_mes sv ventas_df n = head n (sv (groupby_sum (mes_df_de ventas_df)))"

definition top_n_vendidos_mes ::
  "((int \<times> int) list \<Rightarrow> (int \<times> int) list) \<Rightarrow> venta_row list \<Rightarrow> stock_row list \<Rightarrow> int \<Rightarrow>
   error + (stock_row \<times> int) list" where
  "top_n_vendidos_mes sv ventas_df stock_df n =
     (if length ventas_df = 0 then Inr []
      else top_n_loop stock_df (ranking_mes sv ventas_df n) [])"





section \<open>Sales velocity and average units\<close>

text \<open>\<^verbatim>\<open>round(ventas.get(sku, 0) / dias, 2) if dias else 0\<close>.\<close>

definition velocidad_de :: "(int \<times> int) list \<Rightarrow> int option \<Rightarrow> int \<Rightarrow> error + pyfloat" where
  "velocidad_de ventas dias sku =
     (if truthy dias
      then (case py_truediv (series_get ventas sku 0) dias of
              Inl e \<Rightarrow> Inl e
            | Inr x \<Rightarrow> Inr (fl_round2 x))
      else Inr (Num 0))"

text \<open>
  The dict comprehension \<^verbatim>\<open>{str(int(sku)): ... for sku in ...}\<close>: a dict is the list of its
  items in insertion order; storing under a key already present replaces its value in
  place.
\<close>

fun velocidad_loop ::
  "(int \<times> int) list \<Rightarrow> int option \<Rightarrow> int list \<Rightarrow> (string \<times> pyfloat) list \<Rightarrow>
   error + (string \<times> pyfloat) list" where
  "velocidad_loop ventas dias [] d = Inr d"
| "velocidad_loop ventas dias (sku # rest) d =
     (case velocidad_de ventas dias sku of
        Inl e \<Rightarrow> Inl e
      | Inr v \<Rightarrow> velocidad_loop ventas dias rest (AList.update (str_int sku) v d))"

definition estimaciones_velocidad_venta ::
  "venta_row list \<Rightarrow> stock_row list \<Rightarrow> error + (string \<times> pyfloat) list" where
  "estimaciones_velocidad_venta ventas_df stock_df =
     velocidad_loop (groupby_sum ventas_df) (dias_ventas ventas_df) (map SKU stock_df) []"

definition promedios_unidades_vendidas ::
  "venta_row list \<Rightarrow> error + (string \<times> pyfloat) list" where
  "promedios_unidades_vendidas ventas_df =
     velocidad_loop (groupby_sum ventas_df) (dias_ventas ventas_df)
       (map fst (groupby_sum ventas_df)) []"

section \<open>Global metrics and dashboard summary\<close>








section \<open>Last-analysis date\<close>

text \<open>
  \<^verbatim>\<open>fecha_ultimo_analisis\<close>. \<open>None\<close> stands for Python's \<^verbatim>\<open>None\<close> as for \<^verbatim>\<open>NaT\<close>:
  \<^verbatim>\<open>pd.notnull\<close> drops both.
\<close>

definition fecha_ultimo_analisis :: "venta_row list \<Rightarrow> historico_row list \<Rightarrow> string" where
  "fecha_ultimo_analisis ventas_df historico_df =
     (let fecha_ventas = (if ventas_df \<noteq> [] then col_max (map v_Fecha ventas_df) else None);
          fecha_hist = (if historico_df \<noteq> [] then col_max (map h_Fecha historico_df) else None);
          fechas = List.map_filter id [fecha_ventas, fecha_hist]
      in if fechas \<noteq> [] then str_date (date_of (Max (set fechas))) else [])"

section \<open>Example tables\<close>

text \<open>
  Two products, and sales on 2023-12-09 (day 19700 after 1970-01-01), 2024-01-01 (day
  19723) and 2024-01-03 (day 19725); the first Stock row and the January sale of SKU 1
  are the example of the specification.
\<close>

definition ej_camisa :: stock_row where
  "ej_camisa = \<lparr>SKU = 1, Producto = ''Camisa'', Categoria = ''Ropa'', Talla = ''M'',
     Color = ''Azul'', Stock = 5, Precio_Unitario = 10, Umbral = 10\<rparr>"

definition ej_pantalon :: stock_row where
  "ej_pantalon = \<lparr>SKU = 2, Producto = ''Pantalon'', Categoria = ''Ropa'', Talla = ''L'',
     Color = ''Negro'', Stock = 50, Precio_Unitario = 20, Umbral = 10\<rparr>"

definition ej_venta_dic :: venta_row where
  "ej_venta_dic = \<lparr>v_Fecha = 19700 * ns_per_day, v_SKU = 1, v_Unidades_Vendidas = 9\<rparr>"

definition ej_venta_ene_1 :: venta_row where
  "ej_venta_ene_1 = \<lparr>v_Fecha = 19723 * ns_per_day, v_SKU = 1, v_Unidades_Vendidas = 2\<rparr>"

definition ej_venta_ene_3 :: venta_row where
  "ej_venta_ene_3 = \<lparr>v_Fecha = 19725 * ns_per_day, v_SKU = 2, v_Unidades_Vendidas = 7\<rparr>"

definition ej_historico :: historico_row where
  "ej_historico = \<lparr>h_Fecha = 19723 * ns_per_day, h_SKU = 1, h_Stock = 0,
     h_Unidades_Vendidas = 2, h_Reposicion = 1, h_Precio_Unitario = 10,
     h_Ingresos_Brutos = 20\<rparr>"

section \<open>Theorems\<close>

subsection \<open>Low-stock detection\<close>

lemma count_list_filter:
  "count_list (filter P xs) r = (if P r then count_list xs r else 0)"
  by (induction xs) auto

text \<open>
  Claim C2. For every Stock table and every row, the row is in the low-stock output if and
  only if it is a row of the table with \<^verbatim>\<open>Stock <= Umbral\<close>. The output records are the
  stored records, unchanged: the output is a sublist of the table, in table order, in
  which a row with \<^verbatim>\<open>Stock <= Umbral\<close> occurs as often as in the table and any other row
  not at all.
\<close>

theorem productos_bajo_stock_iff:
  "(r \<in> set (productos_bajo_stock stock_df) \<longleftrightarrow> r \<in> set stock_df \<and> Stock r \<le> Umbral r)
   \<and> subseq (productos_bajo_stock stock_df) stock_df
   \<and> count_list (productos_bajo_stock stock_df) r
       = (if Stock r \<le> Umbral r then count_list stock_df r else 0)"
  by (simp add: productos_bajo_stock_def count_list_filter)

subsection \<open>Event extraction\<close>

text \<open>The events one row contributes: what the loop body appends to an empty list.\<close>

lemma eventos_paso_append: "eventos_paso eventos row = eventos @ eventos_paso [] row"
  by (simp add: eventos_paso_def Let_def)

lemma foldl_eventos_paso:
  "foldl eventos_paso eventos historico_df = eventos @ concat (map (eventos_paso []) historico_df)"
proof (induction historico_df arbitrary: eventos)
  case Nil
  show ?case by simp
next
  case (Cons row rest)
  have "foldl eventos_paso eventos (row # rest) = foldl eventos_paso (eventos_paso eventos row) rest"
    by simp
  also have "\<dots> = eventos_paso eventos row @ concat (map (eventos_paso []) rest)"
    by (rule Cons.IH)
  also have "\<dots> = eventos @ concat (map (eventos_paso []) (row # rest))"
    by (simp add: eventos_paso_append [of eventos row])
  finally show ?case .
qed

lemma eventos_detectados_concat:
  "eventos_detectados historico_df = concat (map (eventos_paso []) historico_df)"
  by (simp add: eventos_detectados_def foldl_eventos_paso)

lemma eventos_detectados_append:
  "eventos_detectados (xs @ ys) = eventos_detectados xs @ eventos_detectados ys"
  by (simp add: eventos_detectados_concat)

lemma roturas_de_fila:
  "filter (\<lambda>e. tipo e = ''rotura_stock'') (eventos_paso [] row) =
     (if h_Stock row = 0 then [rotura_de row] else [])"
  by (simp add: eventos_paso_def Let_def rotura_de_def reposicion_de_def)

lemma reposiciones_de_fila:
  "filter (\<lambda>e. tipo e = ''reposicion'') (eventos_paso [] row) =
     (if h_Reposicion row = 1 then [reposicion_de row] else [])"
  by (simp add: eventos_paso_def Let_def rotura_de_def reposicion_de_def)

lemma roturas_detectadas:
  "filter (\<lambda>e. tipo e = ''rotura_stock'') (eventos_detectados historico_df) =
     map rotura_de (filter (\<lambda>row. h_Stock row = 0) historico_df)"
  unfolding eventos_detectados_concat
  by (induction historico_df) (simp_all add: roturas_de_fila)

lemma reposiciones_detectadas:
  "filter (\<lambda>e. tipo e = ''reposicion'') (eventos_detectados historico_df) =
     map reposicion_de (filter (\<lambda>row. h_Reposicion row = 1) historico_df)"
  unfolding eventos_detectados_concat
  by (induction historico_df) (simp_all add: reposiciones_de_fila)

lemma length_eventos_detectados:
  "length (eventos_detectados historico_df) =
     length (filter (\<lambda>row. h_Stock row = 0) historico_df)
     + length (filter (\<lambda>row. h_Reposicion row = 1) historico_df)"
  unfolding eventos_detectados_concat
  by (induction historico_df) (simp_all add: eventos_paso_def Let_def)

text \<open>
  Claim C6. For every History table: the stockout events of the output, in output order,
  are exactly one event per row with \<^verbatim>\<open>Stock == 0\<close>, in row order; the restock events are
  exactly one event per row with \<^verbatim>\<open>Reposicion == 1\<close>, in row order; there is no other event
  (the output's length is the sum of the two counts, so a row with both conditions
  contributes two events); and the whole output is the concatenation, in row order, of
  what each row contributes.
\<close>

theorem eventos_detectados_exactos:
  "filter (\<lambda>e. tipo e = ''rotura_stock'') (eventos_detectados historico_df) =
     map rotura_de (filter (\<lambda>row. h_Stock row = 0) historico_df)
   \<and> filter (\<lambda>e. tipo e = ''reposicion'') (eventos_detectados historico_df) =
     map reposicion_de (filter (\<lambda>row. h_Reposicion row = 1) historico_df)
   \<and> length (eventos_detectados historico_df) =
     length (filter (\<lambda>row. h_Stock row = 0) historico_df)
     + length (filter (\<lambda>row. h_Reposicion row = 1) historico_df)
   \<and> eventos_detectados historico_df = concat (map (eventos_paso []) historico_df)
   \<and> eventos_detectados (antes @ row # despues) =
     eventos_detectados antes @ eventos_paso [] row @ eventos_detectados despues"
proof -
  have "eventos_detectados (antes @ row # despues) =
     eventos_detectados antes @ eventos_paso [] row @ eventos_detectados despues"
    by (simp add: eventos_detectados_concat)
  then show ?thesis
    using roturas_detectadas [of historico_df] reposiciones_detectadas [of historico_df]
      length_eventos_detectados [of historico_df] eventos_detectados_concat [of historico_df]
    by simp
qed

text \<open>
  Claim C10. A History row with both \<^verbatim>\<open>Stock == 0\<close> and \<^verbatim>\<open>Reposicion == 1\<close>, wherever it
  stands in the table, contributes its stockout event immediately followed by its restock
  event, between the events of the rows before it and those of the rows after it.
\<close>

theorem rotura_antes_de_reposicion:
  assumes "h_Stock row = 0" and "h_Reposicion row = 1"
  shows "eventos_detectados (antes @ row # despues) =
     eventos_detectados antes @ [rotura_de row, reposicion_de row] @ eventos_detectados despues"
proof -
  have "eventos_paso [] row = [rotura_de row, reposicion_de row]"
    using assms by (simp add: eventos_paso_def Let_def)
  then show ?thesis
    by (simp add: eventos_detectados_concat)
qed

text \<open>The example History row has both conditions: its two events, stockout first.\<close>

theorem rotura_antes_de_reposicion_witness:
  "h_Stock ej_historico = 0 \<and> h_Reposicion ej_historico = 1
   \<and> eventos_detectados [ej_historico] =
       [\<lparr>tipo = ''rotura_stock'', e_SKU = 1, fecha = ''2024-01-01''\<rparr>,
        \<lparr>tipo = ''reposicion'', e_SKU = 1, fecha = ''2024-01-01''\<rparr>]"
proof -
  have s: "h_Stock ej_historico = 0" and r: "h_Reposicion ej_historico = 1"
    by (simp_all add: ej_historico_def)
  have "eventos_detectados ([] @ ej_historico # []) =
     eventos_detectados [] @ [rotura_de ej_historico, reposicion_de ej_historico]
       @ eventos_detectados []"
    by (rule rotura_antes_de_reposicion [OF s r])
  then have "eventos_detectados [ej_historico] = [rotura_de ej_historico, reposicion_de ej_historico]"
    by (simp add: eventos_detectados_def)
  moreover have "rotura_de ej_historico = \<lparr>tipo = ''rotura_stock'', e_SKU = 1, fecha = ''2024-01-01''\<rparr>"
    by code_simp
  moreover have "reposicion_de ej_historico = \<lparr>tipo = ''reposicion'', e_SKU = 1, fecha = ''2024-01-01''\<rparr>"
    by code_simp
  ultimately show ?thesis using s r by simp
qed

subsection \<open>Stock lookup\<close>

lemma stock_lookup_Inr: "stock_lookup stock_df k = Inr p \<Longrightarrow> SKU p = k \<and> p \<in> set stock_df"
proof -
  assume a: "stock_lookup stock_df k = Inr p"
  then obtain rest where "filter (\<lambda>r. SKU r = k) stock_df = p # rest"
    by (auto simp: stock_lookup_def split: list.splits)
  then have "p \<in> set (filter (\<lambda>r. SKU r = k) stock_df)" by simp
  then show ?thesis by simp
qed

lemma stock_lookup_Inl: "stock_lookup stock_df k = Inl e \<Longrightarrow> e = IndexError \<and> k \<notin> SKU ` set stock_df"
  by (auto simp: stock_lookup_def filter_empty_conv split: list.splits)

lemma stock_lookup_missing: "k \<notin> SKU ` set stock_df \<Longrightarrow> stock_lookup stock_df k = Inl IndexError"
  by (cases "stock_lookup stock_df k") (auto dest: stock_lookup_Inr stock_lookup_Inl)

lemma stock_lookup_present: "k \<in> SKU ` set stock_df \<Longrightarrow> \<exists>p. stock_lookup stock_df k = Inr p"
  by (cases "stock_lookup stock_df k") (auto dest: stock_lookup_Inl)


subsection \<open>Global metrics and dashboard summary\<close>




subsection \<open>Last-analysis date\<close>

lemma col_max_map: "xs \<noteq> [] \<Longrightarrow> col_max (map f xs) = Some (Max (f ` set xs))"
  by (simp add: col_max_def)

text \<open>
  Claim C8. For every Sales and History table the last-analysis date is the empty string
  when both tables are empty, the date of the one table's maximum when the other is
  empty, and otherwise the date of the later of the two maxima; it never fails.
\<close>

theorem fecha_ultimo_analisis_posterior:
  "fecha_ultimo_analisis ventas_df historico_df =
     (if ventas_df = [] \<and> historico_df = [] then []
      else if historico_df = [] then str_date (date_of (Max (v_Fecha ` set ventas_df)))
      else if ventas_df = [] then str_date (date_of (Max (h_Fecha ` set historico_df)))
      else str_date (date_of (max (Max (v_Fecha ` set ventas_df))
                                  (Max (h_Fecha ` set historico_df)))))"
proof -
  have "Max {Max (v_Fecha ` set ventas_df), Max (h_Fecha ` set historico_df)}
        = max (Max (v_Fecha ` set ventas_df)) (Max (h_Fecha ` set historico_df))"
    by (simp add: max.commute)
  then show ?thesis
    by (simp add: fecha_ultimo_analisis_def Let_def col_max_map List.map_filter_simps)
qed

subsection \<open>Dead-stock detection\<close>

lemma int_le_div_iff:
  fixes q k d :: int
  assumes "0 < q"
  shows "k \<le> d div q \<longleftrightarrow> k * q \<le> d"
proof
  assume "k \<le> d div q"
  then have "k * q \<le> (d div q) * q"
    using assms by (simp add: mult_right_mono)
  also have "(d div q) * q \<le> d"
  proof -
    have "d = (d div q) * q + d mod q" by simp
    moreover have "0 \<le> d mod q" using assms by simp
    ultimately show ?thesis by linarith
  qed
  finally show "k * q \<le> d" .
next
  assume "k * q \<le> d"
  then have "(k * q) div q \<le> d div q"
    using assms by (rule zdiv_mono1)
  then show "k \<le> d div q"
    using assms by simp
qed

lemma ns_per_day_pos: "0 < ns_per_day"
  by (simp add: ns_per_day_def)

lemma delta_days_ge: "k \<le> delta_days d \<longleftrightarrow> k * ns_per_day \<le> d"
  unfolding delta_days_def by (rule int_le_div_iff [OF ns_per_day_pos])








subsection \<open>Day span and grouped totals\<close>

lemma dias_ventas_Nil: "dias_ventas [] = None"
  by (simp add: dias_ventas_def col_max_def col_min_def)

lemma dias_ventas_nonempty:
  assumes "ventas_df \<noteq> []"
  shows "dias_ventas ventas_df =
           Some (delta_days (Max (v_Fecha ` set ventas_df) - Min (v_Fecha ` set ventas_df)) + 1)"
    and "1 \<le> delta_days (Max (v_Fecha ` set ventas_df) - Min (v_Fecha ` set ventas_df)) + 1"
proof -
  show "dias_ventas ventas_df =
           Some (delta_days (Max (v_Fecha ` set ventas_df) - Min (v_Fecha ` set ventas_df)) + 1)"
    using assms by (simp add: dias_ventas_def col_max_def col_min_def)
  have "Min (v_Fecha ` set ventas_df) \<le> Max (v_Fecha ` set ventas_df)"
    using assms by (simp add: Min_le_iff)
  then have "0 * ns_per_day \<le> Max (v_Fecha ` set ventas_df) - Min (v_Fecha ` set ventas_df)"
    by simp
  then have "0 \<le> delta_days (Max (v_Fecha ` set ventas_df) - Min (v_Fecha ` set ventas_df))"
    by (simp only: delta_days_ge)
  then show "1 \<le> delta_days (Max (v_Fecha ` set ventas_df) - Min (v_Fecha ` set ventas_df)) + 1"
    by simp
qed


lemma map_fst_groupby_sum: "map fst (groupby_sum df) = sort (remdups (map v_SKU df))"
  by (simp add: groupby_sum_def comp_def)

lemma set_fst_groupby_sum: "fst ` set (groupby_sum df) = v_SKU ` set df"
proof -
  have "fst ` set (groupby_sum df) = set (map fst (groupby_sum df))" by simp
  then show ?thesis by (simp only: map_fst_groupby_sum) simp
qed


lemma distinct_groupby_sum: "distinct (map fst (groupby_sum df))"
  by (simp add: map_fst_groupby_sum)

lemma groupby_sum_elem:
  "(k, t) \<in> set (groupby_sum df) \<longleftrightarrow>
     k \<in> v_SKU ` set df \<and> t = suma_int64 (map v_Unidades_Vendidas (filter (\<lambda>v. v_SKU v = k) df))"
  by (auto simp: groupby_sum_def)


subsection \<open>The lookup loops\<close>




lemma top_n_loop_ok:
  "fst ` set rk \<subseteq> SKU ` set stock_df \<Longrightarrow>
   \<exists>ps. top_n_loop stock_df rk res = Inr (res @ ps)
     \<and> map (\<lambda>(p, t). (SKU p, t)) ps = rk \<and> fst ` set ps \<subseteq> set stock_df"
proof (induction rk arbitrary: res)
  case Nil
  show ?case by simp
next
  case (Cons kt rest)
  obtain k t where kt: "kt = (k, t)" by (cases kt)
  have "k \<in> SKU ` set stock_df" using Cons.prems by (simp add: kt)
  then obtain p where p: "stock_lookup stock_df k = Inr p"
    using stock_lookup_present by blast
  have "fst ` set rest \<subseteq> SKU ` set stock_df" using Cons.prems by simp
  then obtain ps where ps: "top_n_loop stock_df rest (res @ [(p, t)]) = Inr ((res @ [(p, t)]) @ ps)"
    "map (\<lambda>(p, t). (SKU p, t)) ps = rest" "fst ` set ps \<subseteq> set stock_df"
    using Cons.IH [of "res @ [(p, t)]"] by blast
  have "top_n_loop stock_df (kt # rest) res = Inr (res @ ((p, t) # ps))"
    using p ps(1) by (simp add: kt)
  moreover have "map (\<lambda>(p, t). (SKU p, t)) ((p, t) # ps) = kt # rest"
    using ps(2) stock_lookup_Inr [OF p] by (simp add: kt)
  moreover have "fst ` set ((p, t) # ps) \<subseteq> set stock_df"
    using ps(3) stock_lookup_Inr [OF p] by simp
  ultimately have "top_n_loop stock_df (kt # rest) res = Inr (res @ ((p, t) # ps))
     \<and> map (\<lambda>(p, t). (SKU p, t)) ((p, t) # ps) = kt # rest
     \<and> fst ` set ((p, t) # ps) \<subseteq> set stock_df"
    by (intro conjI)
  then show ?case by (rule exI)
qed

lemma top_n_loop_fail:
  "\<not> fst ` set rk \<subseteq> SKU ` set stock_df \<Longrightarrow> top_n_loop stock_df rk res = Inl IndexError"
proof (induction rk arbitrary: res)
  case Nil
  then show ?case by simp
next
  case (Cons kt rest)
  obtain k t where kt: "kt = (k, t)" by (cases kt)
  show ?case
  proof (cases "k \<in> SKU ` set stock_df")
    case False
    then show ?thesis by (simp add: kt stock_lookup_missing)
  next
    case True
    then obtain p where p: "stock_lookup stock_df k = Inr p"
      using stock_lookup_present by blast
    have "\<not> fst ` set rest \<subseteq> SKU ` set stock_df" using Cons.prems True by (simp add: kt)
    then show ?thesis using p Cons.IH [of "res @ [(p, t)]"] by (simp add: kt)
  qed
qed



subsection \<open>Ranking\<close>

text \<open>What every descending sort gives, whatever its order among equal values.\<close>

lemma set_sort_values: "es_sort_values_desc sv \<Longrightarrow> set (sv xs) = set xs"
  by (metis es_sort_values_desc_def mset_eq_setD)

lemma sorted_sort_values:
  "es_sort_values_desc sv \<Longrightarrow> sorted_wrt (\<lambda>a b. snd b \<le> snd a) (sv xs)"
  by (simp add: es_sort_values_desc_def)

lemma distinct_sort_values:
  assumes "es_sort_values_desc sv" and "distinct (map fst xs)"
  shows "distinct (map fst (sv xs))"
proof -
  have "mset (sv xs) = mset xs"
    using assms(1) by (simp add: es_sort_values_desc_def)
  then have "mset (map fst (sv xs)) = mset (map fst xs)"
    by (simp only: mset_map)
  then have "distinct (map fst (sv xs)) \<longleftrightarrow> distinct (map fst xs)"
    by (rule mset_eq_imp_distinct_iff)
  then show ?thesis
    using assms(2) by (rule iffD2)
qed

text \<open>The sort of the examples is a descending sort.\<close>

lemma sort_values_inverso_desc: "es_sort_values_desc sort_values_inverso"
proof -
  have "sorted_wrt (\<lambda>a b. snd b \<le> snd a) (sort_values_inverso xs)" for xs
  proof -
    have "sorted (map snd (sort_key snd xs))" by (rule sorted_sort_key)
    then have "sorted_wrt (\<lambda>a b. snd a \<le> snd b) (sort_key snd xs)"
      by (simp add: sorted_map)
    then show ?thesis
      by (simp add: sort_values_inverso_def sorted_wrt_rev)
  qed
  moreover have "mset (sort_values_inverso xs) = mset xs" for xs
    by (simp add: sort_values_inverso_def)
  ultimately show ?thesis
    by (simp add: es_sort_values_desc_def)
qed

lemma set_head: "set (head n xs) \<subseteq> set xs"
  by (auto simp: head_def dest: in_set_takeD)

lemma length_head: "0 \<le> n \<Longrightarrow> int (length (head n xs)) \<le> n"
  by (simp add: head_def)

lemma sorted_wrt_head: "sorted_wrt P xs \<Longrightarrow> sorted_wrt P (head n xs)"
  by (simp add: head_def sorted_wrt_take)

lemma distinct_head: "distinct (map f xs) \<Longrightarrow> distinct (map f (head n xs))"
  by (simp add: head_def distinct_take flip: take_map)

lemma head_Nil: "head n [] = []"
  by (simp add: head_def)

lemma mes_df_de_nonempty:
  "ventas_df \<noteq> [] \<Longrightarrow>
   mes_df_de ventas_df =
     filter (\<lambda>v. month_of (v_Fecha v) = month_of (Max (v_Fecha ` set ventas_df))
                \<and> year_of (v_Fecha v) = year_of (Max (v_Fecha ` set ventas_df))) ventas_df"
  by (simp add: mes_df_de_def col_max_map)

lemma ranking_mes_elem:
  assumes "es_sort_values_desc sv" and "ventas_df \<noteq> []"
    and "(k, t) \<in> set (ranking_mes sv ventas_df n)"
  shows "t = suma_int64 (map v_Unidades_Vendidas
               (filter (\<lambda>v. v_SKU v = k
                           \<and> month_of (v_Fecha v) = month_of (Max (v_Fecha ` set ventas_df))
                           \<and> year_of (v_Fecha v) = year_of (Max (v_Fecha ` set ventas_df)))
                  ventas_df))"
    and "k \<in> v_SKU ` set ventas_df"
proof -
  have "(k, t) \<in> set (sv (groupby_sum (mes_df_de ventas_df)))"
    using assms(3) set_head [of n "sv (groupby_sum (mes_df_de ventas_df))"]
    by (auto simp: ranking_mes_def)
  then have "(k, t) \<in> set (groupby_sum (mes_df_de ventas_df))"
    by (simp only: set_sort_values [OF assms(1)])
  then have kt: "k \<in> v_SKU ` set (mes_df_de ventas_df)"
    "t = suma_int64 (map v_Unidades_Vendidas (filter (\<lambda>v. v_SKU v = k) (mes_df_de ventas_df)))"
    by (simp_all add: groupby_sum_elem)
  show "k \<in> v_SKU ` set ventas_df"
    using kt(1) by (auto simp: mes_df_de_nonempty [OF assms(2)])
  show "t = suma_int64 (map v_Unidades_Vendidas
               (filter (\<lambda>v. v_SKU v = k
                           \<and> month_of (v_Fecha v) = month_of (Max (v_Fecha ` set ventas_df))
                           \<and> year_of (v_Fecha v) = year_of (Max (v_Fecha ` set ventas_df)))
                  ventas_df))"
    unfolding kt(2) mes_df_de_nonempty [OF assms(2)] filter_filter
    by (rule arg_cong [where f = "\<lambda>P. suma_int64 (map v_Unidades_Vendidas (filter P ventas_df))"]) auto
qed

lemma sorted_ranking_mes:
  "es_sort_values_desc sv \<Longrightarrow> sorted_wrt (\<lambda>a b. snd b \<le> snd a) (ranking_mes sv ventas_df n)"
  by (simp add: ranking_mes_def sorted_wrt_head sorted_sort_values)

lemma distinct_ranking_mes:
  "es_sort_values_desc sv \<Longrightarrow> distinct (map fst (ranking_mes sv ventas_df n))"
  by (simp add: ranking_mes_def distinct_head distinct_sort_values distinct_groupby_sum)

subsection \<open>Top sellers of the month\<close>

lemma top_n_vendidos_mes_Inr:
  assumes "top_n_vendidos_mes sv ventas_df stock_df n = Inr res" and "ventas_df \<noteq> []"
  shows "map (\<lambda>(p, t). (SKU p, t)) res = ranking_mes sv ventas_df n"
    and "fst ` set res \<subseteq> set stock_df"
proof -
  have loop: "top_n_loop stock_df (ranking_mes sv ventas_df n) [] = Inr res"
    using assms by (simp add: top_n_vendidos_mes_def)
  have sub: "fst ` set (ranking_mes sv ventas_df n) \<subseteq> SKU ` set stock_df"
  proof (rule ccontr)
    assume "\<not> fst ` set (ranking_mes sv ventas_df n) \<subseteq> SKU ` set stock_df"
    then have "top_n_loop stock_df (ranking_mes sv ventas_df n) [] = Inl IndexError"
      by (rule top_n_loop_fail)
    with loop show False by simp
  qed
  obtain ps where ps: "top_n_loop stock_df (ranking_mes sv ventas_df n) [] = Inr ([] @ ps)"
    "map (\<lambda>(p, t). (SKU p, t)) ps = ranking_mes sv ventas_df n" "fst ` set ps \<subseteq> set stock_df"
    using top_n_loop_ok [OF sub, of "[]"] by blast
  from ps(1) loop have "res = ps" by simp
  with ps(2,3) show "map (\<lambda>(p, t). (SKU p, t)) res = ranking_mes sv ventas_df n"
    and "fst ` set res \<subseteq> set stock_df" by simp_all
qed

text \<open>
  Claim C4. On an empty Sales table the top-N output is the empty sequence. Whenever the
  operation returns on a Sales table: the output has at most N rows, for every row count
  N (an int that is not negative); and, the library's sort being a descending sort
  whatever its order among equal totals, the rows are in descending order of their summed
  units, no SKU occurs twice, and each row is a Stock row of a Sales SKU together with the
  (\<^verbatim>\<open>int64\<close>) sum of the units of exactly the Sales rows of that SKU in the month and year
  of the maximum Sales date.
\<close>

theorem top_n_vendidos_mes_propiedades:
  "top_n_vendidos_mes sv [] stock_df n = Inr []
   \<and> (top_n_vendidos_mes sv ventas_df stock_df n = Inr res \<longrightarrow>
        (0 \<le> n \<longrightarrow> int (length res) \<le> n)
        \<and> (es_sort_values_desc sv \<longrightarrow>
              sorted_wrt (\<lambda>a b. snd b \<le> snd a) res
              \<and> distinct (map (\<lambda>(p, t). SKU p) res)
              \<and> (\<forall>(p, t) \<in> set res.
                    p \<in> set stock_df \<and> SKU p \<in> v_SKU ` set ventas_df
                    \<and> t = suma_int64 (map v_Unidades_Vendidas
                            (filter (\<lambda>v. v_SKU v = SKU p
                                        \<and> month_of (v_Fecha v)
                                            = month_of (Max (v_Fecha ` set ventas_df))
                                        \<and> year_of (v_Fecha v)
                                            = year_of (Max (v_Fecha ` set ventas_df)))
                               ventas_df)))))"
proof (intro conjI impI)
  show "top_n_vendidos_mes sv [] stock_df n = Inr []"
    by (simp add: top_n_vendidos_mes_def)
next
  assume r: "top_n_vendidos_mes sv ventas_df stock_df n = Inr res" and n: "0 \<le> n"
  show "int (length res) \<le> n"
  proof (cases "ventas_df = []")
    case True
    with r n show ?thesis by (auto simp: top_n_vendidos_mes_def)
  next
    case False
    have "length res = length (map (\<lambda>(p, t). (SKU p, t)) res)" by simp
    also have "\<dots> = length (ranking_mes sv ventas_df n)"
      by (simp only: top_n_vendidos_mes_Inr(1) [OF r False])
    finally show ?thesis
      using length_head [OF n] by (simp add: ranking_mes_def)
  qed
next
  assume r: "top_n_vendidos_mes sv ventas_df stock_df n = Inr res"
    and sv: "es_sort_values_desc sv"
  show "sorted_wrt (\<lambda>a b. snd b \<le> snd a) res"
  proof (cases "ventas_df = []")
    case True
    with r show ?thesis by (auto simp: top_n_vendidos_mes_def)
  next
    case False
    have "sorted_wrt (\<lambda>a b. snd b \<le> snd a) (map (\<lambda>(p, t). (SKU p, t)) res)"
      by (simp only: top_n_vendidos_mes_Inr(1) [OF r False] sorted_ranking_mes [OF sv])
    then show ?thesis
      by (simp add: sorted_wrt_map case_prod_beta)
  qed
next
  assume r: "top_n_vendidos_mes sv ventas_df stock_df n = Inr res"
    and sv: "es_sort_values_desc sv"
  show "distinct (map (\<lambda>(p, t). SKU p) res)"
  proof (cases "ventas_df = []")
    case True
    with r show ?thesis by (auto simp: top_n_vendidos_mes_def)
  next
    case False
    have "map (\<lambda>(p, t). SKU p) res = map fst (map (\<lambda>(p, t). (SKU p, t)) res)"
      by (simp add: case_prod_beta comp_def)
    also have "\<dots> = map fst (ranking_mes sv ventas_df n)"
      by (simp only: top_n_vendidos_mes_Inr(1) [OF r False])
    finally show ?thesis by (simp add: distinct_ranking_mes [OF sv])
  qed
next
  assume r: "top_n_vendidos_mes sv ventas_df stock_df n = Inr res"
    and sv: "es_sort_values_desc sv"
  show "\<forall>(p, t) \<in> set res.
              p \<in> set stock_df \<and> SKU p \<in> v_SKU ` set ventas_df
              \<and> t = suma_int64 (map v_Unidades_Vendidas
                      (filter (\<lambda>v. v_SKU v = SKU p
                                  \<and> month_of (v_Fecha v) = month_of (Max (v_Fecha ` set ventas_df))
                                  \<and> year_of (v_Fecha v) = year_of (Max (v_Fecha ` set ventas_df)))
                         ventas_df))"
  proof (cases "ventas_df = []")
    case True
    with r show ?thesis by (auto simp: top_n_vendidos_mes_def)
  next
    case False
    show ?thesis
    proof (clarify, intro conjI)
      fix p t
      assume pt: "(p, t) \<in> set res"
      then show "p \<in> set stock_df"
        using top_n_vendidos_mes_Inr(2) [OF r False] by force
      have "(SKU p, t) \<in> set (map (\<lambda>(p, t). (SKU p, t)) res)"
        using pt by force
      then have in_rk: "(SKU p, t) \<in> set (ranking_mes sv ventas_df n)"
        by (simp only: top_n_vendidos_mes_Inr(1) [OF r False])
      show "SKU p \<in> v_SKU ` set ventas_df"
        by (rule ranking_mes_elem(2) [OF sv False in_rk])
      show "t = suma_int64 (map v_Unidades_Vendidas
                      (filter (\<lambda>v. v_SKU v = SKU p
                                  \<and> month_of (v_Fecha v) = month_of (Max (v_Fecha ` set ventas_df))
                                  \<and> year_of (v_Fecha v) = year_of (Max (v_Fecha ` set ventas_df)))
                         ventas_df))"
        by (rule ranking_mes_elem(1) [OF sv False in_rk])
    qed
  qed
qed

text \<open>
  January 2024 has sales of two SKUs, of different totals, so every descending sort ranks
  them alike: with \<open>N = 1\<close> the output is the best seller alone, with its 7 units.
\<close>

theorem top_n_vendidos_mes_propiedades_witness:
  "top_n_vendidos_mes sort_values_inverso [ej_venta_dic, ej_venta_ene_1, ej_venta_ene_3]
       [ej_camisa, ej_pantalon] 1
     = Inr [(ej_pantalon, 7)]
   \<and> (0 :: int) \<le> 1
   \<and> es_sort_values_desc sort_values_inverso
   \<and> int (length [(ej_pantalon, 7 :: int)]) \<le> 1
   \<and> ej_pantalon \<in> set [ej_camisa, ej_pantalon]
   \<and> 7 = suma_int64 (map v_Unidades_Vendidas
              (filter (\<lambda>v. v_SKU v = SKU ej_pantalon
                     \<and> month_of (v_Fecha v)
                         = month_of (Max (v_Fecha ` set [ej_venta_dic, ej_venta_ene_1, ej_venta_ene_3]))
                     \<and> year_of (v_Fecha v)
                         = year_of (Max (v_Fecha ` set [ej_venta_dic, ej_venta_ene_1, ej_venta_ene_3])))
                 [ej_venta_dic, ej_venta_ene_1, ej_venta_ene_3]))"
proof -
  have e: "top_n_vendidos_mes sort_values_inverso [ej_venta_dic, ej_venta_ene_1, ej_venta_ene_3]
       [ej_camisa, ej_pantalon] 1
     = Inr [(ej_pantalon, 7)]"
    by code_simp
  show ?thesis
    using top_n_vendidos_mes_propiedades
      [where sv = sort_values_inverso
         and ventas_df = "[ej_venta_dic, ej_venta_ene_1, ej_venta_ene_3]"
         and stock_df = "[ej_camisa, ej_pantalon]" and n = 1 and res = "[(ej_pantalon, 7)]"]
      e sort_values_inverso_desc
    by simp
qed

subsection \<open>Slow-rotation detection\<close>











subsection \<open>SKUs without a Stock row\<close>











subsection \<open>Decimal strings\<close>

text \<open>\<^verbatim>\<open>str\<close> of an int determines the int: distinct SKUs have distinct keys.\<close>

lemma nat_of_str_snoc: "nat_of_str (s @ [c]) = 10 * nat_of_str s + (of_char c - 48)"
  by (simp add: nat_of_str_def)

lemma of_char_digit_char: "d < 10 \<Longrightarrow> of_char (digit_char d) = 48 + d"
  by (simp add: digit_char_def)

lemma nat_of_str_str_nat: "nat_of_str (str_nat n) = n"
proof (induction n rule: str_nat.induct)
  case (1 n)
  show ?case
  proof (cases "n < 10")
    case True
    then show ?thesis
      by (subst str_nat.simps) (simp add: nat_of_str_def of_char_digit_char)
  next
    case False
    have "nat_of_str (str_nat n) = nat_of_str (str_nat (n div 10) @ [digit_char (n mod 10)])"
      using False by (subst str_nat.simps) simp
    also have "\<dots> = 10 * (n div 10) + n mod 10"
      using "1.IH" [OF False] by (simp add: nat_of_str_snoc of_char_digit_char)
    finally show ?thesis by simp
  qed
qed

lemma str_nat_not_Nil: "str_nat n \<noteq> []"
  by (subst str_nat.simps) simp

lemma hd_str_nat: "hd (str_nat n) \<noteq> CHR ''-''"
proof (induction n rule: str_nat.induct)
  case (1 n)
  show ?case
  proof (cases "n < 10")
    case True
    have "of_char (digit_char n) \<noteq> (of_char CHR ''-'' :: nat)"
      using True by (simp add: of_char_digit_char)
    then have "digit_char n \<noteq> CHR ''-''" by auto
    then show ?thesis using True by (subst str_nat.simps) simp
  next
    case False
    then show ?thesis
      using "1.IH" [OF False] str_nat_not_Nil [of "n div 10"]
      by (subst str_nat.simps) simp
  qed
qed

lemma inj_str_int: "str_int i = str_int j \<Longrightarrow> i = j"
proof -
  assume e: "str_int i = str_int j"
  have neg: "hd (str_int k) = CHR ''-'' \<longleftrightarrow> k < 0" for k
    using hd_str_nat [of "nat k"] by (simp add: str_int_def)
  from e have s: "i < 0 \<longleftrightarrow> j < 0" using neg [of i] neg [of j] by simp
  show ?thesis
  proof (cases "i < 0")
    case True
    with s e have "str_nat (nat (- i)) = str_nat (nat (- j))" by (simp add: str_int_def)
    then have "nat (- i) = nat (- j)" by (metis nat_of_str_str_nat)
    with True s show ?thesis by simp
  next
    case False
    with s e have "str_nat (nat i) = str_nat (nat j)" by (simp add: str_int_def)
    then have "nat i = nat j" by (metis nat_of_str_str_nat)
    with False s show ?thesis by simp
  qed
qed

subsection \<open>Sales velocity and average units\<close>

lemma velocidad_de_Some:
  "d \<noteq> 0 \<Longrightarrow>
   velocidad_de ventas (Some d) k = Inr (Num (round2 (of_int (series_get ventas k 0) / of_int d)))"
  by (simp add: velocidad_de_def truthy_def py_truediv_def)

lemma velocidad_de_None: "velocidad_de ventas None k = Inr NaN"
  by (simp add: velocidad_de_def truthy_def py_truediv_def)

lemma velocidad_loop_fold:
  assumes "\<And>k. velocidad_de ventas dias k = Inr (v k)"
  shows "velocidad_loop ventas dias skus d =
           Inr (fold (\<lambda>k. AList.update (str_int k) (v k)) skus d)"
  by (induction skus arbitrary: d) (simp_all add: assms)

lemma keys_fold_update:
  "fst ` set (fold (\<lambda>k. AList.update (str_int k) (v k)) skus d) = fst ` set d \<union> str_int ` set skus"
  by (induction skus arbitrary: d) (auto simp: dom_update)

lemma distinct_fold_update:
  "distinct (map fst d) \<Longrightarrow> distinct (map fst (fold (\<lambda>k. AList.update (str_int k) (v k)) skus d))"
  by (induction skus arbitrary: d) (simp_all add: distinct_update)

lemma card_str_int: "card (str_int ` A) = card A"
  by (rule card_image) (auto intro: inj_onI dest: inj_str_int)

text \<open>
  On a non-empty Sales table the comprehension returns a mapping with exactly one entry per
  SKU it runs over.
\<close>

lemma velocidad_con_ventas:
  assumes "ventas_df \<noteq> []"
    and "r = velocidad_loop (groupby_sum ventas_df) (dias_ventas ventas_df) skus []"
  shows "\<exists>d. r = Inr d
     \<and> distinct (map fst d)
     \<and> fst ` set d = str_int ` set skus
     \<and> length d = card (set skus)"
proof -
  let ?d = "delta_days (Max (v_Fecha ` set ventas_df) - Min (v_Fecha ` set ventas_df)) + 1"
  let ?v = "\<lambda>k. Num (round2 (of_int (series_get (groupby_sum ventas_df) k 0) / of_int ?d))"
  let ?r = "fold (\<lambda>k. AList.update (str_int k) (?v k)) skus []"
  have d: "?d \<noteq> 0" using dias_ventas_nonempty(2) [OF assms(1)] by simp
  have r: "r = Inr ?r"
    unfolding assms(2) dias_ventas_nonempty(1) [OF assms(1)]
    by (rule velocidad_loop_fold) (rule velocidad_de_Some [OF d])
  have dist: "distinct (map fst ?r)"
    by (rule distinct_fold_update) simp
  have keys: "fst ` set ?r = str_int ` set skus"
    by (simp add: keys_fold_update)
  have "length ?r = length (map fst ?r)" by simp
  also have "\<dots> = card (set (map fst ?r))"
    using dist by (simp only: distinct_card)
  also have "\<dots> = card (str_int ` set skus)"
    using keys by simp
  finally have "length ?r = card (set skus)"
    by (simp only: card_str_int)
  with r dist keys show ?thesis by blast
qed

text \<open>
  So on a non-empty Sales table the velocity mapping has one entry per Stock SKU and the
  average mapping one per Sales SKU.
\<close>

lemma estimaciones_con_ventas:
  assumes "ventas_df \<noteq> []"
  shows "\<exists>d. estimaciones_velocidad_venta ventas_df stock_df = Inr d
     \<and> distinct (map fst d)
     \<and> fst ` set d = str_int ` SKU ` set stock_df
     \<and> length d = card (SKU ` set stock_df)"
  using velocidad_con_ventas [OF assms, of "estimaciones_velocidad_venta ventas_df stock_df"
      "map SKU stock_df"]
  by (simp add: estimaciones_velocidad_venta_def)

lemma promedios_con_ventas:
  assumes "ventas_df \<noteq> []"
  shows "\<exists>d. promedios_unidades_vendidas ventas_df = Inr d
     \<and> distinct (map fst d)
     \<and> fst ` set d = str_int ` v_SKU ` set ventas_df
     \<and> length d = card (v_SKU ` set ventas_df)"
proof -
  have "set (map fst (groupby_sum ventas_df)) = v_SKU ` set ventas_df"
    using set_fst_groupby_sum [of ventas_df] by simp
  then show ?thesis
    using velocidad_con_ventas [OF assms, of "promedios_unidades_vendidas ventas_df"
      "map fst (groupby_sum ventas_df)"]
    by (simp add: promedios_unidades_vendidas_def)
qed

lemma promedios_sin_ventas: "promedios_unidades_vendidas [] = Inr []"
  by (simp add: promedios_unidades_vendidas_def groupby_sum_def)

text \<open>
  On an empty Sales table the velocity mapping still has its entry per Stock SKU, and
  every value is \<^verbatim>\<open>nan\<close>.
\<close>

lemma estimaciones_sin_ventas:
  "\<exists>d. estimaciones_velocidad_venta [] stock_df = Inr d
     \<and> fst ` set d = str_int ` SKU ` set stock_df
     \<and> snd ` set d \<subseteq> {NaN}"
proof -
  have e: "estimaciones_velocidad_venta [] stock_df
          = Inr (fold (\<lambda>k. AList.update (str_int k) NaN) (map SKU stock_df) [])"
    unfolding estimaciones_velocidad_venta_def dias_ventas_Nil
    by (rule velocidad_loop_fold) (rule velocidad_de_None)
  have v: "snd ` set (fold (\<lambda>k. AList.update (str_int k) NaN) skus d) \<subseteq> {NaN}"
    if "snd ` set d \<subseteq> {NaN}" for skus and d :: "(string \<times> pyfloat) list"
    using that
  proof (induction skus arbitrary: d)
    case Nil
    then show ?case by simp
  next
    case (Cons x rest)
    have "snd ` set (AList.update (str_int x) NaN d) \<subseteq> {NaN}"
      using Cons.prems by (induction d) auto
    then show ?case using Cons.IH by simp
  qed
  show ?thesis
    using e v [of "[]" "map SKU stock_df"] by (simp add: keys_fold_update)
qed

subsection \<open>Sales velocity on an empty Sales table\<close>

text \<open>
  Claim C5 at an empty Sales table and one Stock row. The day span is \<^verbatim>\<open>nan\<close>, which the
  guard \<^verbatim>\<open>if dias\<close> takes for true, so the entry of the velocity mapping is
  \<^verbatim>\<open>round(0 / nan, 2)\<close>, that is \<^verbatim>\<open>nan\<close>: neither 0 nor any non-negative number.
\<close>

theorem velocidad_sin_ventas:
  "dias_ventas [] = None
   \<and> estimaciones_velocidad_venta [] [ej_camisa] = Inr [(''1'', NaN)]"
proof
  show "dias_ventas [] = None" by code_simp
  show "estimaciones_velocidad_venta [] [ej_camisa] = Inr [(''1'', NaN)]" by code_simp
qed

end
